theory Spec2Isabelle
  imports Main "HOL-Library.Sublist"
begin

section \<open>JavaScript values\<close>

text \<open>
  The values that reach the route builder. Numbers are integers (no NaN, no fractions);
  a function is known by an identifier only, since the builder never looks inside one;
  an object is the list of its own properties, each key once.
\<close>

datatype jsval =
    JUndefined
  | JNull
  | JBool bool
  | JNum int
  | JStr string
  | JFun nat
  | JArr "jsval list"
  | JObj "(string \<times> jsval) list"

text \<open>What \<^verbatim>\<open>if (v)\<close> and \<^verbatim>\<open>!v\<close> test.\<close>

fun truthy :: "jsval \<Rightarrow> bool" where
  "truthy JUndefined = False"
| "truthy JNull = False"
| "truthy (JBool b) = b"
| "truthy (JNum n) = (n \<noteq> 0)"
| "truthy (JStr s) = (s \<noteq> [])"
| "truthy (JFun f) = True"
| "truthy (JArr xs) = True"
| "truthy (JObj ps) = True"

fun typeof :: "jsval \<Rightarrow> string" where
  "typeof JUndefined = ''undefined''"
| "typeof JNull = ''object''"
| "typeof (JBool b) = ''boolean''"
| "typeof (JNum n) = ''number''"
| "typeof (JStr s) = ''string''"
| "typeof (JFun f) = ''function''"
| "typeof (JArr xs) = ''object''"
| "typeof (JObj ps) = ''object''"

text \<open>
  Reading a property \<^verbatim>\<open>o.k\<close> of a value that passed the object test. Only the names
  \<^verbatim>\<open>name\<close>, \<^verbatim>\<open>include\<close> and \<^verbatim>\<open>generator\<close> are ever read, which no prototype defines, so
  a value without such an own property gives \<^verbatim>\<open>undefined\<close>.
\<close>

fun get_prop :: "jsval \<Rightarrow> string \<Rightarrow> jsval" where
  "get_prop (JObj ps) k = (case map_of ps k of Some v \<Rightarrow> v | None \<Rightarrow> JUndefined)"
| "get_prop v k = JUndefined"

text \<open>\<^verbatim>\<open>[].concat(v)\<close>: an array is spread into the new array, any other value becomes its
  only element.\<close>

fun concat_onto_empty :: "jsval \<Rightarrow> jsval" where
  "concat_onto_empty (JArr xs) = JArr xs"
| "concat_onto_empty v = JArr [v]"

text \<open>\<^verbatim>\<open>s.indexOf(p) >= 0\<close> on strings: \<^verbatim>\<open>p\<close> occurs somewhere in \<^verbatim>\<open>s\<close>.\<close>

fun string_includes :: "string \<Rightarrow> string \<Rightarrow> bool" where
  "string_includes [] p = (p = [])"
| "string_includes (c # cs) p = (prefix p (c # cs) \<or> string_includes cs p)"

text \<open>\<^verbatim>\<open>toLowerCase\<close> on the ASCII letters; other bytes are left alone.\<close>

definition lower_char :: "char \<Rightarrow> char" where
  "lower_char c =
     (case map_of (zip ''ABCDEFGHIJKLMNOPQRSTUVWXYZ'' ''abcdefghijklmnopqrstuvwxyz'') c of
        Some l \<Rightarrow> l
      | None \<Rightarrow> c)"

definition toLowerCase :: "string \<Rightarrow> string" where
  "toLowerCase s = map lower_char s"

section \<open>Errors and results\<close>

text \<open>
  Every failure the module raises itself is a plain \<^verbatim>\<open>Error\<close> with a message; the
  run time adds \<^verbatim>\<open>TypeError\<close> when something that is not a function is called.
\<close>

datatype error = Error string | TypeError

datatype 'a result = Throw error | Return 'a

section \<open>The registry\<close>

text \<open>
  \<^verbatim>\<open>var middlewares = []\<close>. An entry is an object that passed the checks of
  \<^verbatim>\<open>addMiddleware\<close>: its name is a string and its generator a function. The field
  \<^verbatim>\<open>include\<close> stays a JavaScript value, because the code tests it in three ways
  (truthiness, \<^verbatim>\<open>===\<close> and \<^verbatim>\<open>indexOf\<close>). Properties that are never read are dropped.
  The object pushed is the caller's own; an entry holds what the object holds when
  \<^verbatim>\<open>addMiddleware\<close> returns.
\<close>

record middlewareObject =
  name :: string
  "include" :: jsval
  generator :: nat

type_synonym registry = "middlewareObject list"

text \<open>
  Each operation takes the registry and returns what the call gives back (a value or a
  thrown error) together with the registry after the call.
\<close>

definition addMiddleware :: "jsval \<Rightarrow> registry \<Rightarrow> unit result \<times> registry" where
  "addMiddleware middlewareObject middlewares =
     (if \<not> truthy middlewareObject \<or> typeof middlewareObject \<noteq> ''object'' then
        (Throw (Error ''addMiddleware: middlewareObject must be an object''), middlewares)
      else if \<not> truthy (get_prop middlewareObject ''name'')
              \<or> typeof (get_prop middlewareObject ''name'') \<noteq> ''string'' then
        (Throw (Error ''addMiddleware: name required''), middlewares)
      else if \<not> truthy (get_prop middlewareObject ''generator'')
              \<or> typeof (get_prop middlewareObject ''generator'') \<noteq> ''function'' then
        (Throw (Error ''addMiddleware: middlewareObject.generator must be a function''),
         middlewares)
      else
        (case (get_prop middlewareObject ''name'', get_prop middlewareObject ''generator'') of
           (JStr n, JFun g) \<Rightarrow>
             (Return (),
              middlewares @
                [\<lparr>name = n,
                  include =
                    (if truthy (get_prop middlewareObject ''include'')
                     then concat_onto_empty (get_prop middlewareObject ''include'')
                     else get_prop middlewareObject ''include''),
                  generator = g\<rparr>])
         | _ \<Rightarrow> (Throw TypeError, middlewares)))"

definition getMiddlewares :: "registry \<Rightarrow> registry result \<times> registry" where
  "getMiddlewares middlewares = (Return middlewares, middlewares)"

text \<open>\<^verbatim>\<open>forEach\<close> stops at the first element whose \<^verbatim>\<open>addMiddleware\<close> throws; what was
  pushed before stays.\<close>

fun addMiddleware_forEach :: "jsval list \<Rightarrow> registry \<Rightarrow> unit result \<times> registry" where
  "addMiddleware_forEach [] middlewares = (Return (), middlewares)"
| "addMiddleware_forEach (m # ms) middlewares =
     (case addMiddleware m middlewares of
        (Throw e, middlewares') \<Rightarrow> (Throw e, middlewares')
      | (Return u, middlewares') \<Rightarrow> addMiddleware_forEach ms middlewares')"

definition setMiddlewares :: "jsval \<Rightarrow> registry \<Rightarrow> unit result \<times> registry" where
  "setMiddlewares middlewareObjects middlewares =
     (case middlewareObjects of
        JArr ms \<Rightarrow> addMiddleware_forEach ms middlewares
      | _ \<Rightarrow> (Throw (Error ''setMiddleware: middlewareObjects should be an Array''),
              middlewares))"

section \<open>Route objects and chains\<close>

text \<open>
  A route object has the properties \<^verbatim>\<open>method\<close> and \<^verbatim>\<open>path\<close>, strings when they are
  there, and any number of further own properties, which hold the values handed to the
  generators. It is a plain object: it does not replace \<^verbatim>\<open>hasOwnProperty\<close>, and no
  middleware is named as a property that every object inherits.
\<close>

record routeObject =
  "method" :: "string option"
  path :: "string option"
  config :: "(string \<times> jsval) list"

definition prop_of :: "string option \<Rightarrow> jsval" where
  "prop_of v = (case v of None \<Rightarrow> JUndefined | Some s \<Rightarrow> JStr s)"

definition hasOwnProperty :: "routeObject \<Rightarrow> string \<Rightarrow> bool" where
  "hasOwnProperty r k =
     (if k = ''method'' then method r \<noteq> None
      else if k = ''path'' then path r \<noteq> None
      else k \<in> fst ` set (config r))"

definition route_get :: "routeObject \<Rightarrow> string \<Rightarrow> jsval" where
  "route_get r k =
     (if k = ''method'' then prop_of (method r)
      else if k = ''path'' then prop_of (path r)
      else (case map_of (config r) k of Some v \<Rightarrow> v | None \<Rightarrow> JUndefined))"

text \<open>
  A chain is the path followed by the wrapped handlers. A handler is what a generator
  returns for the value of the route; generators are supplied by the application, so the
  call is kept as it is written: \<^verbatim>\<open>logger(name, generator(routeObject[name]))\<close>. A
  generator that throws, or that adds to the registry while a chain is built, is not
  covered.
\<close>

datatype chain_elem = Path string | Logger string nat jsval

type_synonym chain = "chain_elem list"

text \<open>
  \<^verbatim>\<open>include && (include.indexOf("all") >= 0 || include.indexOf(method) >= 0)\<close>.
  On an array \<^verbatim>\<open>indexOf\<close> compares with \<^verbatim>\<open>===\<close>, on a string it searches a substring
  (of \<^verbatim>\<open>"undefined"\<close> when there is no method); every other truthy value has no
  \<^verbatim>\<open>indexOf\<close> to call (an object that brings its own is not covered). After
  \<^verbatim>\<open>addMiddleware\<close> only the first case and the falsy one occur.
\<close>

definition shouldAddMiddleware :: "routeObject \<Rightarrow> middlewareObject \<Rightarrow> error + bool" where
  "shouldAddMiddleware r m =
     (if \<not> truthy (include m) then Inr False
      else (case include m of
              JArr toks \<Rightarrow>
                Inr (JStr ''all'' \<in> set toks \<or> prop_of (method r) \<in> set toks)
            | JStr s \<Rightarrow>
                Inr (string_includes s ''all''
                     \<or> string_includes s
                          (case method r of None \<Rightarrow> ''undefined'' | Some meth \<Rightarrow> meth))
            | _ \<Rightarrow> Inl TypeError))"

text \<open>The function handed to \<^verbatim>\<open>middlewares.forEach\<close>, for one entry of the registry:
  it throws, or gives the chain as it is after the entry.\<close>

definition buildMiddlewares_callback ::
    "routeObject \<Rightarrow> middlewareObject \<Rightarrow> chain \<Rightarrow> chain result" where
  "buildMiddlewares_callback r m routeMiddlewares =
     (if include m = JStr ''required'' \<and> \<not> hasOwnProperty r (name m) then
        Throw (Error (name m @ '' is a required configuration''))
      else
        (case shouldAddMiddleware r m of
           Inl e \<Rightarrow> Throw e
         | Inr b \<Rightarrow>
             if b \<or> hasOwnProperty r (name m) then
               Return (routeMiddlewares @
                         [Logger (name m) (generator m) (route_get r (name m))])
             else Return routeMiddlewares))"

fun buildMiddlewares_forEach :: "routeObject \<Rightarrow> registry \<Rightarrow> chain \<Rightarrow> chain result" where
  "buildMiddlewares_forEach r [] routeMiddlewares = Return routeMiddlewares"
| "buildMiddlewares_forEach r (m # ms) routeMiddlewares =
     (case buildMiddlewares_callback r m routeMiddlewares of
        Throw e \<Rightarrow> Throw e
      | Return routeMiddlewares' \<Rightarrow> buildMiddlewares_forEach r ms routeMiddlewares')"

definition buildMiddlewares :: "routeObject \<Rightarrow> registry \<Rightarrow> chain result \<times> registry" where
  "buildMiddlewares r middlewares =
     (if \<not> truthy (prop_of (path r)) then
        (Throw (Error ''route object requires a 'path' attribute''), middlewares)
      else if \<not> truthy (prop_of (method r)) then
        (Throw (Error ''route object requires a 'methods' attribute''), middlewares)
      else
        (buildMiddlewares_forEach r middlewares
           [Path (case path r of Some p \<Rightarrow> p | None \<Rightarrow> [])],
         middlewares))"

section \<open>The router\<close>

text \<open>
  The router is the application's: it has one function per HTTP method, and a call
  \<^verbatim>\<open>router[verb].apply(router, chain)\<close> registers the chain under the verb. The model
  keeps the names of the functions the router has and, in \<^verbatim>\<open>stack\<close>, the calls
  made in order. A router without the function makes the call a \<^verbatim>\<open>TypeError\<close>.
\<close>

record router =
  entry_points :: "string list"
  stack :: "(string \<times> chain) list"

definition apply_entry_point :: "router \<Rightarrow> string \<Rightarrow> chain \<Rightarrow> error + router" where
  "apply_entry_point rt verb routeMiddlewares =
     (if verb \<in> set (entry_points rt)
      then Inr (rt\<lparr>stack := stack rt @ [(verb, routeMiddlewares)]\<rparr>)
      else Inl TypeError)"

text \<open>The function handed to \<^verbatim>\<open>routeObjects.forEach\<close>, for one route.\<close>

definition buildRouter_callback ::
    "routeObject \<Rightarrow> router \<Rightarrow> registry \<Rightarrow> unit result \<times> router \<times> registry" where
  "buildRouter_callback r rt middlewares =
     (if \<not> truthy (prop_of (method r)) then
        (Throw (Error ''routeObject requires a 'method' object''), rt, middlewares)
      else
        (case buildMiddlewares r middlewares of
           (Throw e, middlewares') \<Rightarrow> (Throw e, rt, middlewares')
         | (Return routeMiddlewares, middlewares') \<Rightarrow>
             (case apply_entry_point rt
                     (toLowerCase (case method r of Some meth \<Rightarrow> meth | None \<Rightarrow> []))
                     routeMiddlewares of
                Inl e \<Rightarrow> (Throw e, rt, middlewares')
              | Inr rt' \<Rightarrow> (Return (), rt', middlewares'))))"

fun buildRouter_forEach ::
    "routeObject list \<Rightarrow> router \<Rightarrow> registry \<Rightarrow> unit result \<times> router \<times> registry" where
  "buildRouter_forEach [] rt middlewares = (Return (), rt, middlewares)"
| "buildRouter_forEach (r # rs) rt middlewares =
     (case buildRouter_callback r rt middlewares of
        (Throw e, rt', middlewares') \<Rightarrow> (Throw e, rt', middlewares')
      | (Return u, rt', middlewares') \<Rightarrow> buildRouter_forEach rs rt' middlewares')"

text \<open>
  The result has the value given back (the router itself) or the error thrown, the
  router as the call leaves it, which the caller sees in both cases, and the registry.
\<close>

definition buildRouter ::
    "router \<Rightarrow> routeObject list \<Rightarrow> registry \<Rightarrow> router result \<times> router \<times> registry" where
  "buildRouter rt routeObjects middlewares =
     (case buildRouter_forEach routeObjects rt middlewares of
        (Throw e, rt', middlewares') \<Rightarrow> (Throw e, rt', middlewares')
      | (Return u, rt', middlewares') \<Rightarrow> (Return rt', rt', middlewares'))"

text \<open>The five functions of \<^verbatim>\<open>module.exports\<close>, and the registry after a call of one.\<close>

datatype exported =
    AddMiddleware jsval
  | BuildRouter router "routeObject list"
  | BuildMiddlewares routeObject
  | GetMiddlewares
  | SetMiddlewares jsval

fun registry_after :: "exported \<Rightarrow> registry \<Rightarrow> registry" where
  "registry_after (AddMiddleware m) middlewares = snd (addMiddleware m middlewares)"
| "registry_after (BuildRouter rt rs) middlewares = snd (snd (buildRouter rt rs middlewares))"
| "registry_after (BuildMiddlewares r) middlewares = snd (buildMiddlewares r middlewares)"
| "registry_after GetMiddlewares middlewares = snd (getMiddlewares middlewares)"
| "registry_after (SetMiddlewares ms) middlewares = snd (setMiddlewares ms middlewares)"

fun registry_after_all :: "exported list \<Rightarrow> registry \<Rightarrow> registry" where
  "registry_after_all [] middlewares = middlewares"
| "registry_after_all (c # cs) middlewares =
     registry_after_all cs (registry_after c middlewares)"

section \<open>The logging wrapper\<close>

text \<open>
  \<^verbatim>\<open>lib/logger.js\<close> wraps a handler. To say what a wrapped handler does, a handler
  needs a meaning. A handler called with \<^verbatim>\<open>this\<close>, \<^verbatim>\<open>req\<close> and \<^verbatim>\<open>res\<close> behaves as a
  tree of steps: it gives a value back, changes the state of the application, looks at
  that state, or calls its continuation with one argument and goes on with what the
  continuation gave back. Handlers that throw or call the continuation after they
  have returned are not covered.
\<close>

datatype 's behaviour =
    Returns jsval
  | Update "'s \<Rightarrow> 's" "'s behaviour"
  | Inspect "'s \<Rightarrow> 's behaviour"
  | CallNext jsval "jsval \<Rightarrow> 's behaviour"

type_synonym 's middleware = "jsval \<Rightarrow> jsval \<Rightarrow> jsval \<Rightarrow> 's behaviour"

text \<open>The world is the state of the application and what \<^verbatim>\<open>debug\<close> has printed, each
  line under its namespace.\<close>

record 's world =
  app :: 's
  debug_out :: "(string \<times> jsval) list"

type_synonym 's continuation = "jsval \<Rightarrow> 's world \<Rightarrow> jsval \<times> 's world"

primrec run_handler :: "'s behaviour \<Rightarrow> 's continuation \<Rightarrow> 's world \<Rightarrow> jsval \<times> 's world" where
  "run_handler (Returns v) next w = (v, w)"
| "run_handler (Update f b) next w = run_handler b next (w\<lparr>app := f (app w)\<rparr>)"
| "run_handler (Inspect g) next w = run_handler (g (app w)) next w"
| "run_handler (CallNext err c) next w =
     (case next err w of (v, w') \<Rightarrow> run_handler (c v) next w')"

text \<open>\<^verbatim>\<open>var debugLog = debug("middleware:" + label)\<close>, and a call of it.\<close>

definition debugLog :: "string \<Rightarrow> jsval \<Rightarrow> 's world \<Rightarrow> 's world" where
  "debugLog label msg w = w\<lparr>debug_out := debug_out w @ [(''middleware:'' @ label, msg)]\<rparr>"

text \<open>\<^verbatim>\<open>newNext\<close> logs, calls \<^verbatim>\<open>next(err)\<close> and has no \<^verbatim>\<open>return\<close>: it gives back
  \<^verbatim>\<open>undefined\<close> whatever \<^verbatim>\<open>next\<close> gave.\<close>

definition newNext :: "string \<Rightarrow> 's continuation \<Rightarrow> 's continuation" where
  "newNext label next err w =
     (case next err (debugLog label (if truthy err then err else JStr ''complete'') w) of
        (v, w') \<Rightarrow> (JUndefined, w'))"

definition logMiddlware ::
    "string \<Rightarrow> 's middleware \<Rightarrow> jsval \<Rightarrow> jsval \<Rightarrow> jsval \<Rightarrow> 's continuation
       \<Rightarrow> 's world \<Rightarrow> jsval \<times> 's world" where
  "logMiddlware label middleware this req res next w =
     run_handler (middleware this req res) (newNext label next)
       (debugLog label (JStr ''started'') w)"

text \<open>A continuation that neither reads nor depends on what was logged.\<close>

definition ignores_log :: "'s continuation \<Rightarrow> bool" where
  "ignores_log next \<longleftrightarrow>
     (\<forall>err w w'. app w = app w' \<longrightarrow>
        fst (next err w) = fst (next err w') \<and> app (snd (next err w)) = app (snd (next err w')))"

section \<open>What the specification says, in its words\<close>

text \<open>An entry as \<^verbatim>\<open>addMiddleware\<close> leaves it: \<^verbatim>\<open>include\<close> is an array, or the falsy
  value it was.\<close>

definition registered :: "middlewareObject \<Rightarrow> bool" where
  "registered m = (case include m of JArr toks \<Rightarrow> True | v \<Rightarrow> \<not> truthy v)"

text \<open>The tokens of the inclusion policy of an entry.\<close>

definition policy_tokens :: "middlewareObject \<Rightarrow> jsval list" where
  "policy_tokens m = (case include m of JArr toks \<Rightarrow> toks | _ \<Rightarrow> [])"

text \<open>The route passes the validation of path and method.\<close>

definition valid_route :: "routeObject \<Rightarrow> bool" where
  "valid_route r \<longleftrightarrow> truthy (prop_of (path r)) \<and> truthy (prop_of (method r))"

text \<open>Include \<^verbatim>\<open>d\<close> if its policy contains \<^verbatim>\<open>"all"\<close>, or a token equal to the method of
  the route, or if the route has a field named as \<^verbatim>\<open>d\<close>.\<close>

definition spec_included :: "routeObject \<Rightarrow> middlewareObject \<Rightarrow> bool" where
  "spec_included r d \<longleftrightarrow>
     JStr ''all'' \<in> set (policy_tokens d)
     \<or> (case method r of Some meth \<Rightarrow> JStr meth \<in> set (policy_tokens d) | None \<Rightarrow> False)
     \<or> hasOwnProperty r (name d)"

text \<open>The chain element of an included entry.\<close>

definition spec_handler :: "routeObject \<Rightarrow> middlewareObject \<Rightarrow> chain_elem" where
  "spec_handler r d = Logger (name d) (generator d) (route_get r (name d))"

text \<open>A non-null object.\<close>

definition is_object :: "jsval \<Rightarrow> bool" where
  "is_object v = (case v of JArr xs \<Rightarrow> True | JObj ps \<Rightarrow> True | _ \<Rightarrow> False)"

text \<open>What one route registers on the router: the function named after the method in
  lower case, called with the chain; nothing when the route fails.\<close>

definition spec_registration :: "registry \<Rightarrow> string list \<Rightarrow> routeObject \<Rightarrow> (string \<times> chain) option" where
  "spec_registration middlewares verbs r =
     (case method r of
        None \<Rightarrow> None
      | Some meth \<Rightarrow>
          (case fst (buildMiddlewares r middlewares) of
             Throw e \<Rightarrow> None
           | Return c \<Rightarrow>
               if meth \<noteq> [] \<and> toLowerCase meth \<in> set verbs then Some (toLowerCase meth, c)
               else None))"

section \<open>The data of the tests and of the README\<close>

text \<open>\<^verbatim>\<open>middlewareObjects\<close> of \<^verbatim>\<open>test/index.js\<close>; the generators are numbered.\<close>

definition middlewareObjects :: jsval where
  "middlewareObjects =
     JArr [JObj [(''name'', JStr ''pagination''), (''include'', JStr ''get''),
                 (''generator'', JFun 0)],
           JObj [(''name'', JStr ''authorization''), (''include'', JStr ''optional''),
                 (''generator'', JFun 1)]]"

text \<open>The entry \<^verbatim>\<open>handler\<close> of the README, whose comment reads: 'required' means it must
  be specified or an error is thrown.\<close>

definition handler_required :: jsval where
  "handler_required =
     JObj [(''name'', JStr ''handler''), (''include'', JStr ''required''),
           (''generator'', JFun 2)]"

text \<open>A router with four functions and nothing registered, and the two routes of the
  test of \<^verbatim>\<open>buildRouter\<close>, the second with its method in capitals.\<close>

definition test_router :: router where
  "test_router = \<lparr>entry_points = [''get'', ''post'', ''put'', ''delete''], stack = []\<rparr>"

definition test_routes :: "routeObject list" where
  "test_routes =
     [\<lparr>method = Some ''get'', path = Some ''/badgers'',
       config = [(''authorization'', JStr ''bearer'')]\<rparr>,
      \<lparr>method = Some ''POST'', path = Some ''/badgers'',
       config = [(''authorization'', JStr ''bearer'')]\<rparr>]"


section \<open>Lemmas on the registry\<close>

text \<open>\<^verbatim>\<open>addMiddleware\<close> returns only after pushing one entry, and throws only before.
  The last case of its definition is never taken.\<close>

lemma addMiddleware_Return:
  assumes "fst (addMiddleware a reg) = Return u"
  shows "\<exists>n g. n \<noteq> [] \<and> get_prop a ''name'' = JStr n \<and> get_prop a ''generator'' = JFun g \<and>
           snd (addMiddleware a reg) = reg @ [\<lparr>name = n,
              include = (if truthy (get_prop a ''include'') then concat_onto_empty (get_prop a ''include'') else get_prop a ''include''),
              generator = g\<rparr>]"
  using assms
  by (cases "get_prop a ''name''"; cases "get_prop a ''generator''")
     (auto simp: addMiddleware_def split: if_splits)

lemma addMiddleware_Throw:
  "fst (addMiddleware a reg) = Throw e \<Longrightarrow> snd (addMiddleware a reg) = reg"
  by (cases "get_prop a ''name''"; cases "get_prop a ''generator''")
     (auto simp: addMiddleware_def split: if_splits)

lemma addMiddleware_not_TypeError:
  "fst (addMiddleware a reg) \<noteq> Throw TypeError"
  by (cases "get_prop a ''name''"; cases "get_prop a ''generator''")
     (auto simp: addMiddleware_def split: if_splits)

lemma concat_onto_empty_registered:
  "truthy v \<Longrightarrow> \<exists>toks. concat_onto_empty v = JArr toks"
  by (cases v) auto

text \<open>Every entry that \<^verbatim>\<open>addMiddleware\<close> and \<^verbatim>\<open>setMiddlewares\<close> push is \<open>registered\<close>.\<close>

lemma addMiddleware_registered:
  assumes "list_all registered reg"
  shows "list_all registered (snd (addMiddleware a reg))"
proof (cases "fst (addMiddleware a reg)")
  case (Throw e)
  then show ?thesis using assms by (simp add: addMiddleware_Throw)
next
  case (Return u)
  from addMiddleware_Return[OF this] obtain n g where
    s: "snd (addMiddleware a reg) = reg @ [\<lparr>name = n,
              include = (if truthy (get_prop a ''include'') then concat_onto_empty (get_prop a ''include'') else get_prop a ''include''),
              generator = g\<rparr>]" by blast
  show ?thesis
  proof (cases "truthy (get_prop a ''include'')")
    case True
    then obtain toks where "concat_onto_empty (get_prop a ''include'') = JArr toks"
      using concat_onto_empty_registered by blast
    with True s assms show ?thesis by (simp add: registered_def)
  next
    case False
    with s assms show ?thesis
      by (cases "get_prop a ''include''") (simp_all add: registered_def)
  qed
qed

lemma addMiddleware_forEach_registered:
  "list_all registered reg \<Longrightarrow> list_all registered (snd (addMiddleware_forEach ms reg))"
proof (induction ms arbitrary: reg)
  case Nil
  then show ?case by simp
next
  case (Cons m ms)
  have r: "list_all registered (snd (addMiddleware m reg))"
    using Cons.prems by (rule addMiddleware_registered)
  show ?case
  proof (cases "addMiddleware m reg")
    case (Pair out reg')
    with r have r': "list_all registered reg'" by simp
    show ?thesis
      using Pair r' Cons.IH[OF r'] by (cases out) simp_all
  qed
qed

lemma setMiddlewares_registered:
  "list_all registered reg \<Longrightarrow> list_all registered (snd (setMiddlewares ms reg))"
  by (cases ms) (simp_all add: setMiddlewares_def addMiddleware_forEach_registered)

lemma addMiddleware_prefix: "prefix reg (snd (addMiddleware a reg))"
proof (cases "fst (addMiddleware a reg)")
  case (Throw e)
  then show ?thesis by (simp add: addMiddleware_Throw)
next
  case (Return u)
  from addMiddleware_Return[OF this] show ?thesis by auto
qed

lemma addMiddleware_forEach_prefix: "prefix reg (snd (addMiddleware_forEach ms reg))"
proof (induction ms arbitrary: reg)
  case Nil
  then show ?case by simp
next
  case (Cons m ms)
  show ?case
  proof (cases "addMiddleware m reg")
    case (Pair out reg')
    with addMiddleware_prefix[of reg m] have p: "prefix reg reg'" by simp
    from Cons.IH[of reg'] have "prefix reg' (snd (addMiddleware_forEach ms reg'))" .
    with p have "prefix reg (snd (addMiddleware_forEach ms reg'))" by (rule prefix_order.trans)
    with Pair p show ?thesis by (cases out) simp_all
  qed
qed

lemma registry_of_test:
  "snd (setMiddlewares middlewareObjects []) =
     [\<lparr>name = ''pagination'', include = JArr [JStr ''get''], generator = 0\<rparr>,
      \<lparr>name = ''authorization'', include = JArr [JStr ''optional''], generator = 1\<rparr>]"
  by (simp add: middlewareObjects_def setMiddlewares_def addMiddleware_def)

lemma registry_of_required:
  "snd (addMiddleware handler_required []) =
     [\<lparr>name = ''handler'', include = JArr [JStr ''required''], generator = 2\<rparr>]"
  by (simp add: handler_required_def addMiddleware_def)

section \<open>Lemmas on building a chain\<close>

lemma callback_registered:
  assumes "registered m" "truthy (prop_of (method r))"
  shows "buildMiddlewares_callback r m acc =
           Return (if spec_included r m then acc @ [spec_handler r m] else acc)"
proof (cases "\<exists>toks. include m = JArr toks")
  case True
  then obtain toks where t: "include m = JArr toks" by blast
  then have "policy_tokens m = toks" by (simp add: policy_tokens_def)
  with t assms(2) show ?thesis
    by (cases "method r")
       (auto simp: buildMiddlewares_callback_def shouldAddMiddleware_def spec_included_def
          spec_handler_def prop_of_def)
next
  case False
  with assms(1) have f: "\<not> truthy (include m)" and r: "include m \<noteq> JStr ''required''"
    by (cases "include m"; simp add: registered_def)+
  from False have "policy_tokens m = []"
    by (cases "include m") (simp_all add: policy_tokens_def)
  with f r show ?thesis
    by (cases "method r")
       (simp_all add: buildMiddlewares_callback_def shouldAddMiddleware_def spec_included_def
          spec_handler_def)
qed

lemma forEach_registered:
  assumes "list_all registered reg" "truthy (prop_of (method r))"
  shows "buildMiddlewares_forEach r reg acc =
           Return (acc @ map (spec_handler r) (filter (spec_included r) reg))"
  using assms
  by (induction reg arbitrary: acc) (simp_all add: callback_registered)

lemma buildMiddlewares_registry: "snd (buildMiddlewares r reg) = reg"
  by (simp add: buildMiddlewares_def)

lemma buildMiddlewares_registered:
  assumes "list_all registered reg" "path r = Some p" "p \<noteq> []" "truthy (prop_of (method r))"
  shows "fst (buildMiddlewares r reg) =
           Return (Path p # map (spec_handler r) (filter (spec_included r) reg))"
  using assms by (simp add: buildMiddlewares_def forEach_registered prop_of_def)

section \<open>Lemmas on building a router\<close>

lemma callback_ok:
  assumes "spec_registration reg (entry_points rt) r = Some e"
  shows "buildRouter_callback r rt reg = (Return (), rt\<lparr>stack := stack rt @ [e]\<rparr>, reg)"
proof -
  from assms obtain meth c where m: "method r = Some meth" "meth \<noteq> []"
    and c: "fst (buildMiddlewares r reg) = Return c"
    and v: "toLowerCase meth \<in> set (entry_points rt)" and e: "e = (toLowerCase meth, c)"
    by (auto simp: spec_registration_def split: option.splits result.splits if_splits)
  from c have "buildMiddlewares r reg = (Return c, reg)"
    using buildMiddlewares_registry[of r reg] by (cases "buildMiddlewares r reg") simp
  with m v e show ?thesis
    by (simp add: buildRouter_callback_def prop_of_def apply_entry_point_def)
qed

lemma callback_fails:
  assumes "spec_registration reg (entry_points rt) r = None"
  shows "\<exists>e. buildRouter_callback r rt reg = (Throw e, rt, reg)"
proof (cases "truthy (prop_of (method r))")
  case False
  then show ?thesis by (simp add: buildRouter_callback_def)
next
  case True
  then obtain meth where m: "method r = Some meth" "meth \<noteq> []"
    by (cases "method r") (auto simp: prop_of_def)
  show ?thesis
  proof (cases "fst (buildMiddlewares r reg)")
    case (Throw e)
    then have "buildMiddlewares r reg = (Throw e, reg)"
      using buildMiddlewares_registry[of r reg] by (cases "buildMiddlewares r reg") simp
    with True show ?thesis by (simp add: buildRouter_callback_def)
  next
    case (Return c)
    then have b: "buildMiddlewares r reg = (Return c, reg)"
      using buildMiddlewares_registry[of r reg] by (cases "buildMiddlewares r reg") simp
    from assms m Return have "toLowerCase meth \<notin> set (entry_points rt)"
      by (auto simp: spec_registration_def split: if_splits)
    with True b m show ?thesis
      by (simp add: buildRouter_callback_def apply_entry_point_def)
  qed
qed

lemma forEach_all_registered:
  assumes "\<forall>r \<in> set rs. spec_registration reg (entry_points rt) r \<noteq> None"
  shows "buildRouter_forEach rs rt reg =
           (Return (),
            rt\<lparr>stack := stack rt @ map (\<lambda>r. the (spec_registration reg (entry_points rt) r)) rs\<rparr>,
            reg)"
  using assms
proof (induction rs arbitrary: rt)
  case Nil
  then show ?case by simp
next
  case (Cons r rs)
  then obtain e where e: "spec_registration reg (entry_points rt) r = Some e" by auto
  let ?rt = "rt\<lparr>stack := stack rt @ [e]\<rparr>"
  have ep: "entry_points ?rt = entry_points rt" by simp
  have "\<forall>r \<in> set rs. spec_registration reg (entry_points ?rt) r \<noteq> None"
    using Cons.prems by simp
  from Cons.IH[OF this] show ?case
    by (simp add: callback_ok[OF e] e)
qed

lemma forEach_append:
  "buildRouter_forEach (pre @ post) rt reg =
     (case buildRouter_forEach pre rt reg of
        (Throw e, rt', reg') \<Rightarrow> (Throw e, rt', reg')
      | (Return u, rt', reg') \<Rightarrow> buildRouter_forEach post rt' reg')"
proof (induction pre arbitrary: rt reg)
  case Nil
  then show ?case by simp
next
  case (Cons r pre)
  show ?case
  proof (cases "buildRouter_callback r rt reg")
    case (fields out rt' reg')
    then show ?thesis using Cons.IH by (cases out) simp_all
  qed
qed

lemma buildRouter_callback_registry: "snd (snd (buildRouter_callback r rt reg)) = reg"
  using buildMiddlewares_registry[of r reg]
  by (cases "buildMiddlewares r reg")
     (auto simp: buildRouter_callback_def split: result.splits sum.splits)

lemma buildRouter_forEach_registry: "snd (snd (buildRouter_forEach rs rt reg)) = reg"
proof (induction rs arbitrary: rt)
  case Nil
  then show ?case by simp
next
  case (Cons r rs)
  show ?case
  proof (cases "buildRouter_callback r rt reg")
    case (fields out rt' reg')
    with buildRouter_callback_registry[of r rt reg] have "reg' = reg" by simp
    with fields Cons.IH show ?thesis by (cases out) simp_all
  qed
qed

lemma buildRouter_registry: "snd (snd (buildRouter rt rs reg)) = reg"
  using buildRouter_forEach_registry[of rs rt reg]
  by (cases "buildRouter_forEach rs rt reg") (auto simp: buildRouter_def split: result.splits)

lemma registry_after_prefix: "prefix reg (registry_after c reg)"
proof (cases c)
  case (SetMiddlewares ms)
  then show ?thesis
    by (cases ms) (simp_all add: setMiddlewares_def addMiddleware_forEach_prefix)
qed (simp_all add: addMiddleware_prefix buildRouter_registry buildMiddlewares_registry getMiddlewares_def)

lemma registry_after_all_prefix: "prefix reg (registry_after_all cs reg)"
proof (induction cs arbitrary: reg)
  case Nil
  then show ?case by simp
next
  case (Cons c cs)
  have "prefix reg (registry_after c reg)" by (rule registry_after_prefix)
  moreover have "prefix (registry_after c reg) (registry_after_all cs (registry_after c reg))"
    by (rule Cons.IH)
  ultimately show ?case by (simp add: prefix_order.trans)
qed

lemma map_Some_eq:
  assumes "map f xs = map Some es"
  shows "(\<forall>x \<in> set xs. f x \<noteq> None) \<and> map (\<lambda>x. the (f x)) xs = es"
  using assms
proof (induction xs arbitrary: es)
  case Nil
  then show ?case by simp
next
  case (Cons x xs)
  then obtain e es' where "es = e # es'" "f x = Some e" "map f xs = map Some es'"
    by (cases es) auto
  with Cons.IH[of es'] show ?case by simp
qed

lemma test_registrations:
  "map (spec_registration (snd (setMiddlewares middlewareObjects [])) (entry_points test_router))
       test_routes
   = map Some
       [(''get'', [Path ''/badgers'', Logger ''pagination'' 0 JUndefined,
                   Logger ''authorization'' 1 (JStr ''bearer'')]),
        (''post'', [Path ''/badgers'', Logger ''authorization'' 1 (JStr ''bearer'')])]"
  by (simp add: registry_of_test test_router_def test_routes_def spec_registration_def
        buildMiddlewares_def prop_of_def buildMiddlewares_callback_def shouldAddMiddleware_def
        hasOwnProperty_def route_get_def toLowerCase_def lower_char_def)

lemma test_bad_route:
  "spec_registration (snd (setMiddlewares middlewareObjects [])) (entry_points test_router)
     \<lparr>method = Some ''get'', path = None, config = []\<rparr> = None"
  by (simp add: spec_registration_def buildMiddlewares_def prop_of_def)

section \<open>Lemmas on the logging wrapper\<close>

lemma app_debugLog: "app (debugLog label msg w) = app w"
  by (simp add: debugLog_def)

lemma wrapped_run_simulates:
  assumes "ignores_log next" and "\<forall>err w. fst (next err w) = JUndefined"
  shows "app w1 = app w2 \<Longrightarrow>
         fst (run_handler b (newNext label next) w1) = fst (run_handler b next w2)
         \<and> app (snd (run_handler b (newNext label next) w1)) = app (snd (run_handler b next w2))"
proof (induction b arbitrary: w1 w2)
  case (Returns v)
  then show ?case by simp
next
  case (Update f b)
  have "app (w1\<lparr>app := f (app w1)\<rparr>) = app (w2\<lparr>app := f (app w2)\<rparr>)"
    using Update.prems by simp
  from Update.IH[OF this] show ?case by simp
next
  case (Inspect g)
  have "g (app w1) \<in> range g" by simp
  from Inspect.IH[OF this Inspect.prems] show ?case using Inspect.prems by simp
next
  case (CallNext err c)
  let ?w1 = "debugLog label (if truthy err then err else JStr ''complete'') w1"
  obtain v1 w1' where n1: "next err ?w1 = (v1, w1')" by (cases "next err ?w1")
  obtain v2 w2' where n2: "next err w2 = (v2, w2')" by (cases "next err w2")
  have "app ?w1 = app w2" using CallNext.prems by (simp add: app_debugLog)
  with assms(1) have "app (snd (next err ?w1)) = app (snd (next err w2))"
    unfolding ignores_log_def by blast
  with n1 n2 have a: "app w1' = app w2'" by simp
  from assms(2) n2 have v2: "v2 = JUndefined" by (metis fst_conv)
  have "c JUndefined \<in> range c" by simp
  from CallNext.IH[OF this a] show ?case
    by (simp add: newNext_def n1 n2 v2)
qed


section \<open>Properties of the route builder\<close>

subsection \<open>The policy "required"\<close>

text \<open>
  C1. A middleware registered with the policy \<^verbatim>\<open>"required"\<close> should make
  \<^verbatim>\<open>buildMiddlewares\<close> throw "handler is a required configuration" for a route that
  has no field \<^verbatim>\<open>handler\<close>. The code does not: \<^verbatim>\<open>addMiddleware\<close> has stored the policy
  as the array \<^verbatim>\<open>["required"]\<close>, and the test \<^verbatim>\<open>include === "required"\<close> compares that
  array with a string. For the entry of the README and the route
  \<^verbatim>\<open>{method: "get", path: "/badgers"}\<close> the chain is returned, with the path alone.
\<close>

theorem required_policy_is_not_enforced:
  "buildMiddlewares \<lparr>method = Some ''get'', path = Some ''/badgers'', config = []\<rparr>
     (snd (addMiddleware handler_required []))
   = (Return [Path ''/badgers''], snd (addMiddleware handler_required []))"
  by (simp add: registry_of_required buildMiddlewares_def prop_of_def
        buildMiddlewares_callback_def shouldAddMiddleware_def hasOwnProperty_def)

text \<open>
  The error that the README announces is not what the call gives.
\<close>

theorem required_policy_witness:
  "fst (buildMiddlewares \<lparr>method = Some ''get'', path = Some ''/badgers'', config = []\<rparr>
          (snd (addMiddleware handler_required [])))
     \<noteq> Throw (Error ''handler is a required configuration'')"
  using required_policy_is_not_enforced by simp

subsection \<open>Which middlewares a chain has, and in which order\<close>

text \<open>
  C2. For a registry as \<^verbatim>\<open>addMiddleware\<close> leaves it and a route that passes the
  validation, the chain is the path followed by the handlers of exactly the entries
  whose policy contains \<^verbatim>\<open>"all"\<close> or a token equal to the method of the route, or whose
  name is a field of the route, in the order of registration; for the registry in
  reverse order the handlers come in reverse order.
\<close>

theorem chain_follows_policy_in_registration_order:
  assumes "list_all registered reg" and "valid_route r"
  shows "\<exists>p. path r = Some p \<and>
           fst (buildMiddlewares r reg) =
             Return (Path p # map (spec_handler r) (filter (spec_included r) reg)) \<and>
           fst (buildMiddlewares r (rev reg)) =
             Return (Path p # rev (map (spec_handler r) (filter (spec_included r) reg)))"
proof -
  from assms(2) obtain p where p: "path r = Some p" "p \<noteq> []" and m: "truthy (prop_of (method r))"
    by (cases "path r") (auto simp: valid_route_def prop_of_def)
  have "list_all registered (rev reg)" using assms(1) by (simp add: list_all_iff)
  then show ?thesis
    using buildMiddlewares_registered[OF assms(1) p m]
      buildMiddlewares_registered[OF _ p m, of "rev reg"]
    by (simp add: p rev_map rev_filter)
qed

text \<open>
  The registry and the route of the test of \<^verbatim>\<open>buildMiddlewares\<close>: pagination by the
  method, authorization by the field.
\<close>

theorem chain_follows_policy_witness:
  "list_all registered (snd (setMiddlewares middlewareObjects []))
   \<and> valid_route \<lparr>method = Some ''get'', path = Some ''/fish'',
                   config = [(''authorization'', JStr ''bearer'')]\<rparr>
   \<and> fst (buildMiddlewares \<lparr>method = Some ''get'', path = Some ''/fish'',
                   config = [(''authorization'', JStr ''bearer'')]\<rparr>
            (snd (setMiddlewares middlewareObjects [])))
       = Return [Path ''/fish'', Logger ''pagination'' 0 JUndefined,
                 Logger ''authorization'' 1 (JStr ''bearer'')]
   \<and> fst (buildMiddlewares \<lparr>method = Some ''get'', path = Some ''/fish'',
                   config = [(''authorization'', JStr ''bearer'')]\<rparr>
            (rev (snd (setMiddlewares middlewareObjects []))))
       = Return [Path ''/fish'', Logger ''authorization'' 1 (JStr ''bearer''),
                 Logger ''pagination'' 0 JUndefined]"
proof -
  let ?r = "\<lparr>method = Some ''get'', path = Some ''/fish'',
                   config = [(''authorization'', JStr ''bearer'')]\<rparr>"
  have reg: "list_all registered (snd (setMiddlewares middlewareObjects []))"
    by (simp add: registry_of_test registered_def)
  have r: "valid_route ?r" by (simp add: valid_route_def prop_of_def)
  from chain_follows_policy_in_registration_order[OF reg r] reg r show ?thesis
    by (simp add: registry_of_test spec_included_def policy_tokens_def spec_handler_def
          hasOwnProperty_def route_get_def)
qed

subsection \<open>A method written in capitals\<close>

text \<open>
  C3. A middleware of policy \<^verbatim>\<open>"get"\<close> should be in the chain of a route whose method
  is \<^verbatim>\<open>"GET"\<close> as it is for \<^verbatim>\<open>"get"\<close>: the README says that 'get' means it will be
  included in all HTTP GET requests, and \<^verbatim>\<open>buildRouter\<close> puts the method in lower case
  to choose \<^verbatim>\<open>router.get\<close>. The code does not: \<^verbatim>\<open>shouldAddMiddleware\<close> looks for the
  method as it is written. With the registry of the test, the route
  \<^verbatim>\<open>{method: "get", path: "/fish"}\<close> gets the pagination handler, the route
  \<^verbatim>\<open>{method: "GET", path: "/fish"}\<close> gets none, and \<^verbatim>\<open>buildRouter\<close> registers that
  route under \<^verbatim>\<open>get\<close> with the path alone.
\<close>

theorem uppercase_method_loses_its_middleware:
  "fst (buildMiddlewares \<lparr>method = Some ''get'', path = Some ''/fish'', config = []\<rparr>
          (snd (setMiddlewares middlewareObjects [])))
     = Return [Path ''/fish'', Logger ''pagination'' 0 JUndefined]
   \<and> fst (buildMiddlewares \<lparr>method = Some ''GET'', path = Some ''/fish'', config = []\<rparr>
          (snd (setMiddlewares middlewareObjects [])))
     = Return [Path ''/fish'']
   \<and> stack (fst (snd (buildRouter test_router
                         [\<lparr>method = Some ''GET'', path = Some ''/fish'', config = []\<rparr>]
                         (snd (setMiddlewares middlewareObjects [])))))
     = [(''get'', [Path ''/fish''])]"
  by (simp add: registry_of_test buildMiddlewares_def prop_of_def
        buildMiddlewares_callback_def shouldAddMiddleware_def hasOwnProperty_def route_get_def
        buildRouter_def buildRouter_callback_def apply_entry_point_def test_router_def
        toLowerCase_def lower_char_def)

text \<open>
  The two chains differ, although the two routes are registered under the same function
  of the router.
\<close>

theorem uppercase_method_witness:
  "fst (buildMiddlewares \<lparr>method = Some ''GET'', path = Some ''/fish'', config = []\<rparr>
          (snd (setMiddlewares middlewareObjects [])))
     \<noteq> fst (buildMiddlewares \<lparr>method = Some ''get'', path = Some ''/fish'', config = []\<rparr>
            (snd (setMiddlewares middlewareObjects [])))
   \<and> map fst (stack (fst (snd (buildRouter test_router
                         [\<lparr>method = Some ''GET'', path = Some ''/fish'', config = []\<rparr>]
                         (snd (setMiddlewares middlewareObjects []))))))
     = [''get'']"
  using uppercase_method_loses_its_middleware by simp

subsection \<open>Building a router\<close>

text \<open>
  C4. \<^verbatim>\<open>buildRouter\<close> takes the routes in order. When every route registers, the
  router given back is the router passed in with one entry more for each route, in the
  order of the routes, each under the method in lower case with the chain of the route.
  When a route fails after some that registered, the error is thrown and the entries of
  the routes before it stay on the router. The registry is as before in both cases.
\<close>

theorem buildRouter_registers_in_order_without_rollback:
  "(map (spec_registration reg (entry_points rt)) rs = map Some es \<longrightarrow>
      length es = length rs \<and>
      buildRouter rt rs reg =
        (Return (rt\<lparr>stack := stack rt @ es\<rparr>), rt\<lparr>stack := stack rt @ es\<rparr>, reg))
   \<and> (map (spec_registration reg (entry_points rt)) pre = map Some es
        \<and> spec_registration reg (entry_points rt) bad = None \<longrightarrow>
      (\<exists>e. buildRouter rt (pre @ bad # post) reg =
        (Throw e, rt\<lparr>stack := stack rt @ es\<rparr>, reg)))"
proof (intro conjI impI)
  assume a: "map (spec_registration reg (entry_points rt)) rs = map Some es"
  from map_eq_imp_length_eq[OF a] show "length es = length rs" by simp
next
  assume a: "map (spec_registration reg (entry_points rt)) rs = map Some es"
  from map_Some_eq[OF a] show "buildRouter rt rs reg =
        (Return (rt\<lparr>stack := stack rt @ es\<rparr>), rt\<lparr>stack := stack rt @ es\<rparr>, reg)"
    by (simp add: buildRouter_def forEach_all_registered)
next
  assume a: "map (spec_registration reg (entry_points rt)) pre = map Some es
        \<and> spec_registration reg (entry_points rt) bad = None"
  let ?rt = "rt\<lparr>stack := stack rt @ es\<rparr>"
  from a map_Some_eq[of "spec_registration reg (entry_points rt)" pre es]
  have p: "buildRouter_forEach pre rt reg = (Return (), ?rt, reg)"
    by (simp add: forEach_all_registered)
  from a have "spec_registration reg (entry_points ?rt) bad = None" by simp
  from callback_fails[OF this] obtain e where
    "buildRouter_callback bad ?rt reg = (Throw e, ?rt, reg)" by blast
  then have "buildRouter_forEach (bad # post) ?rt reg = (Throw e, ?rt, reg)" by simp
  with p have "buildRouter_forEach (pre @ bad # post) rt reg = (Throw e, ?rt, reg)"
    by (simp add: forEach_append)
  then show "\<exists>e. buildRouter rt (pre @ bad # post) reg = (Throw e, ?rt, reg)"
    by (simp add: buildRouter_def)
qed

text \<open>
  The two routes of the test register two entries, the second under \<^verbatim>\<open>post\<close>; with
  a route without a path after them, the call throws and the two entries stay.
\<close>

theorem buildRouter_witness:
  "buildRouter test_router test_routes (snd (setMiddlewares middlewareObjects []))
     = (Return \<lparr>entry_points = [''get'', ''post'', ''put'', ''delete''],
               stack = [(''get'', [Path ''/badgers'', Logger ''pagination'' 0 JUndefined,
                                   Logger ''authorization'' 1 (JStr ''bearer'')]),
                        (''post'', [Path ''/badgers'',
                                    Logger ''authorization'' 1 (JStr ''bearer'')])]\<rparr>,
        \<lparr>entry_points = [''get'', ''post'', ''put'', ''delete''],
               stack = [(''get'', [Path ''/badgers'', Logger ''pagination'' 0 JUndefined,
                                   Logger ''authorization'' 1 (JStr ''bearer'')]),
                        (''post'', [Path ''/badgers'',
                                    Logger ''authorization'' 1 (JStr ''bearer'')])]\<rparr>,
        snd (setMiddlewares middlewareObjects []))
   \<and> (\<exists>e. buildRouter test_router
             (test_routes @ \<lparr>method = Some ''get'', path = None, config = []\<rparr> # test_routes)
             (snd (setMiddlewares middlewareObjects []))
        = (Throw e,
           \<lparr>entry_points = [''get'', ''post'', ''put'', ''delete''],
               stack = [(''get'', [Path ''/badgers'', Logger ''pagination'' 0 JUndefined,
                                   Logger ''authorization'' 1 (JStr ''bearer'')]),
                        (''post'', [Path ''/badgers'',
                                    Logger ''authorization'' 1 (JStr ''bearer'')])]\<rparr>,
           snd (setMiddlewares middlewareObjects [])))"
  using buildRouter_registers_in_order_without_rollback
          [of "snd (setMiddlewares middlewareObjects [])" test_router test_routes
              "[(''get'', [Path ''/badgers'', Logger ''pagination'' 0 JUndefined,
                   Logger ''authorization'' 1 (JStr ''bearer'')]),
                (''post'', [Path ''/badgers'', Logger ''authorization'' 1 (JStr ''bearer'')])]"
              test_routes "\<lparr>method = Some ''get'', path = None, config = []\<rparr>" test_routes]
        test_registrations test_bad_route
  by (simp add: test_router_def)

subsection \<open>Adding a middleware\<close>

text \<open>
  C5. For an object with a name that is a non-empty string and a generator that is a
  function, \<^verbatim>\<open>addMiddleware\<close> returns and the registry is the one before with one entry
  more at its end, which \<^verbatim>\<open>getMiddlewares\<close> shows. The entry has the name and the
  generator. Its policy is in array form when \<^verbatim>\<open>include\<close> was there (truthy, as the
  code tests it): an array keeps its elements in their order, any other value becomes
  the only element; a falsy \<^verbatim>\<open>include\<close> is stored as it is. The array form is final:
  putting it in array form again gives the same value.
\<close>

theorem addMiddleware_appends_normalized:
  assumes "d = JObj ps" and "map_of ps ''name'' = Some (JStr n)" and "n \<noteq> []"
    and "map_of ps ''generator'' = Some (JFun g)"
  shows "\<exists>e. addMiddleware d reg = (Return (), reg @ [e])
           \<and> fst (getMiddlewares (reg @ [e])) = Return (reg @ [e])
           \<and> length (reg @ [e]) = length reg + 1
           \<and> name e = n \<and> generator e = g
           \<and> (\<forall>toks. get_prop d ''include'' = JArr toks \<longrightarrow> include e = JArr toks)
           \<and> (truthy (get_prop d ''include'') \<and> (\<forall>toks. get_prop d ''include'' \<noteq> JArr toks)
                \<longrightarrow> include e = JArr [get_prop d ''include''])
           \<and> (\<not> truthy (get_prop d ''include'') \<longrightarrow> include e = get_prop d ''include'')
           \<and> (truthy (get_prop d ''include'')
                \<longrightarrow> concat_onto_empty (include e) = include e)"
proof -
  let ?inc = "get_prop d ''include''"
  let ?e = "\<lparr>name = n, include = (if truthy ?inc then concat_onto_empty ?inc else ?inc),
             generator = g\<rparr>"
  have a: "addMiddleware d reg = (Return (), reg @ [?e])"
    using assms by (simp add: addMiddleware_def)
  have b: "\<forall>toks. ?inc = JArr toks \<longrightarrow> include ?e = JArr toks" by simp
  have c: "truthy ?inc \<and> (\<forall>toks. ?inc \<noteq> JArr toks) \<longrightarrow> include ?e = JArr [?inc]"
    by (cases ?inc) simp_all
  have d: "truthy ?inc \<longrightarrow> concat_onto_empty (include ?e) = include ?e"
    by (cases ?inc) simp_all
  from a b c d show ?thesis
    by (intro exI[of _ ?e]) (simp add: getMiddlewares_def)
qed

theorem addMiddleware_appends_normalized_witness:
  "addMiddleware (JObj [(''name'', JStr ''pagination''), (''include'', JStr ''get''),
                        (''generator'', JFun 0)])
     [\<lparr>name = ''first'', include = JUndefined, generator = 7\<rparr>]
   = (Return (),
      [\<lparr>name = ''first'', include = JUndefined, generator = 7\<rparr>,
       \<lparr>name = ''pagination'', include = JArr [JStr ''get''], generator = 0\<rparr>])"
proof -
  let ?d = "JObj [(''name'', JStr ''pagination''), (''include'', JStr ''get''),
                        (''generator'', JFun 0)]"
  let ?reg = "[\<lparr>name = ''first'', include = JUndefined, generator = 7\<rparr>]"
  have "\<exists>e. addMiddleware ?d ?reg = (Return (), ?reg @ [e])
           \<and> fst (getMiddlewares (?reg @ [e])) = Return (?reg @ [e])
           \<and> length (?reg @ [e]) = length ?reg + 1
           \<and> name e = ''pagination'' \<and> generator e = 0
           \<and> (\<forall>toks. get_prop ?d ''include'' = JArr toks \<longrightarrow> include e = JArr toks)
           \<and> (truthy (get_prop ?d ''include'') \<and> (\<forall>toks. get_prop ?d ''include'' \<noteq> JArr toks)
                \<longrightarrow> include e = JArr [get_prop ?d ''include''])
           \<and> (\<not> truthy (get_prop ?d ''include'') \<longrightarrow> include e = get_prop ?d ''include'')
           \<and> (truthy (get_prop ?d ''include'')
                \<longrightarrow> concat_onto_empty (include e) = include e)"
    by (rule addMiddleware_appends_normalized
               [of ?d "[(''name'', JStr ''pagination''), (''include'', JStr ''get''),
                        (''generator'', JFun 0)]"])
       simp_all
  then obtain e where e: "addMiddleware ?d ?reg = (Return (), ?reg @ [e])"
    and n: "name e = ''pagination''" and g: "generator e = 0"
    and i: "include e = JArr [get_prop ?d ''include'']"
    by auto
  from n g i have "e = \<lparr>name = ''pagination'', include = JArr [JStr ''get''], generator = 0\<rparr>"
    by (cases e) simp
  with e show ?thesis by simp
qed

text \<open>
  C6. \<^verbatim>\<open>addMiddleware\<close> throws an \<^verbatim>\<open>Error\<close> exactly when its argument is not a
  non-null object, or the name is not a non-empty string, or the generator is not a
  function (a missing property reads as \<^verbatim>\<open>undefined\<close>, and the empty string counts
  as missing, as \<^verbatim>\<open>!name\<close> tests it). Whenever it throws, the error is such an
  \<^verbatim>\<open>Error\<close> and the registry is as it was.
\<close>

theorem addMiddleware_fails_exactly_when:
  "((\<exists>msg. fst (addMiddleware a reg) = Throw (Error msg)) \<longleftrightarrow>
      \<not> is_object a
      \<or> \<not> (\<exists>n. n \<noteq> [] \<and> get_prop a ''name'' = JStr n)
      \<or> \<not> (\<exists>g. get_prop a ''generator'' = JFun g))
   \<and> (\<forall>e. fst (addMiddleware a reg) = Throw e \<longrightarrow>
         (\<exists>msg. e = Error msg) \<and> snd (addMiddleware a reg) = reg)"
proof -
  have 1: "\<not> truthy a \<or> typeof a \<noteq> ''object'' \<longleftrightarrow> \<not> is_object a"
    by (cases a) (simp_all add: is_object_def)
  have 2: "\<not> truthy v \<or> typeof v \<noteq> ''string'' \<longleftrightarrow> \<not> (\<exists>n. n \<noteq> [] \<and> v = JStr n)" for v
    by (cases v) simp_all
  have 3: "\<not> truthy v \<or> typeof v \<noteq> ''function'' \<longleftrightarrow> \<not> (\<exists>g. v = JFun g)" for v
    by (cases v) simp_all
  have "(\<exists>msg. fst (addMiddleware a reg) = Throw (Error msg)) \<longleftrightarrow>
      (\<not> truthy a \<or> typeof a \<noteq> ''object'')
      \<or> (\<not> truthy (get_prop a ''name'') \<or> typeof (get_prop a ''name'') \<noteq> ''string'')
      \<or> (\<not> truthy (get_prop a ''generator'')
          \<or> typeof (get_prop a ''generator'') \<noteq> ''function'')"
    by (cases "get_prop a ''name''"; cases "get_prop a ''generator''")
       (auto simp: addMiddleware_def)
  then have "(\<exists>msg. fst (addMiddleware a reg) = Throw (Error msg)) \<longleftrightarrow>
      \<not> is_object a
      \<or> \<not> (\<exists>n. n \<noteq> [] \<and> get_prop a ''name'' = JStr n)
      \<or> \<not> (\<exists>g. get_prop a ''generator'' = JFun g)"
    unfolding 1 2 3 .
  moreover have "\<forall>e. fst (addMiddleware a reg) = Throw e \<longrightarrow>
         (\<exists>msg. e = Error msg) \<and> snd (addMiddleware a reg) = reg"
  proof (intro allI impI)
    fix e assume t: "fst (addMiddleware a reg) = Throw e"
    with addMiddleware_not_TypeError[of a reg] have "\<exists>msg. e = Error msg"
      by (cases e) auto
    with t show "(\<exists>msg. e = Error msg) \<and> snd (addMiddleware a reg) = reg"
      by (simp add: addMiddleware_Throw)
  qed
  ultimately show ?thesis by blast
qed

text \<open>
  The three failing calls of the test: no argument, no name, no generator.
\<close>

theorem addMiddleware_fails_witness:
  "fst (addMiddleware JUndefined [\<lparr>name = ''first'', include = JUndefined, generator = 7\<rparr>])
     = Throw (Error ''addMiddleware: middlewareObject must be an object'')
   \<and> fst (addMiddleware (JObj [(''name'', JUndefined)])
            [\<lparr>name = ''first'', include = JUndefined, generator = 7\<rparr>])
     = Throw (Error ''addMiddleware: name required'')
   \<and> snd (addMiddleware (JObj [(''name'', JStr ''badger'')])
            [\<lparr>name = ''first'', include = JUndefined, generator = 7\<rparr>])
     = [\<lparr>name = ''first'', include = JUndefined, generator = 7\<rparr>]"
proof -
  let ?reg = "[\<lparr>name = ''first'', include = JUndefined, generator = 7\<rparr>]"
  have f: "fst (addMiddleware (JObj [(''name'', JStr ''badger'')]) ?reg)
             = Throw (Error ''addMiddleware: middlewareObject.generator must be a function'')"
    by (simp add: addMiddleware_def)
  have "snd (addMiddleware (JObj [(''name'', JStr ''badger'')]) ?reg) = ?reg"
    using addMiddleware_fails_exactly_when[of "JObj [(''name'', JStr ''badger'')]" ?reg] f
    by blast
  then show ?thesis by (simp add: addMiddleware_def)
qed

subsection \<open>The validation of a route\<close>

text \<open>
  C7. Whatever the registry holds, \<^verbatim>\<open>buildMiddlewares\<close> throws the error of the path
  when the path is missing, and otherwise the error of the method when the method is
  missing. Nothing of the registry is looked at before: the result is the same for
  every registry, also for one with an entry that would make the loop throw.
\<close>

theorem path_then_method_checked_first:
  "(\<not> truthy (prop_of (path r)) \<longrightarrow>
      buildMiddlewares r reg = (Throw (Error ''route object requires a 'path' attribute''), reg))
   \<and> (truthy (prop_of (path r)) \<and> \<not> truthy (prop_of (method r)) \<longrightarrow>
      buildMiddlewares r reg = (Throw (Error ''route object requires a 'methods' attribute''), reg))"
  by (simp add: buildMiddlewares_def)

theorem path_then_method_witness:
  "\<not> truthy (prop_of (path \<lparr>method = None, path = None, config = []\<rparr>))
   \<and> buildMiddlewares \<lparr>method = None, path = None, config = []\<rparr>
        [\<lparr>name = ''broken'', include = JNum 5, generator = 0\<rparr>]
     = (Throw (Error ''route object requires a 'path' attribute''),
        [\<lparr>name = ''broken'', include = JNum 5, generator = 0\<rparr>])
   \<and> truthy (prop_of (path \<lparr>method = Some [], path = Some ''/fish'', config = []\<rparr>))
   \<and> \<not> truthy (prop_of (method \<lparr>method = Some [], path = Some ''/fish'', config = []\<rparr>))
   \<and> buildMiddlewares \<lparr>method = Some [], path = Some ''/fish'', config = []\<rparr>
        [\<lparr>name = ''broken'', include = JNum 5, generator = 0\<rparr>]
     = (Throw (Error ''route object requires a 'methods' attribute''),
        [\<lparr>name = ''broken'', include = JNum 5, generator = 0\<rparr>])"
  using path_then_method_checked_first
          [of "\<lparr>method = None, path = None, config = []\<rparr>"
              "[\<lparr>name = ''broken'', include = JNum 5, generator = 0\<rparr>]"]
        path_then_method_checked_first
          [of "\<lparr>method = Some [], path = Some ''/fish'', config = []\<rparr>"
              "[\<lparr>name = ''broken'', include = JNum 5, generator = 0\<rparr>]"]
  by (simp add: prop_of_def)

subsection \<open>The registry only grows\<close>

text \<open>
  C8. \<^verbatim>\<open>buildMiddlewares\<close>, \<^verbatim>\<open>buildRouter\<close> and \<^verbatim>\<open>getMiddlewares\<close> leave the registry
  as it was. \<^verbatim>\<open>addMiddleware\<close> and \<^verbatim>\<open>setMiddlewares\<close> keep what was there as the
  beginning of the new registry, and so does every sequence of calls of the five
  exported functions: no entry is ever removed or moved.
\<close>

theorem registry_only_grows_at_the_tail:
  "snd (buildMiddlewares r reg) = reg
   \<and> snd (snd (buildRouter rt rs reg)) = reg
   \<and> snd (getMiddlewares reg) = reg
   \<and> prefix reg (snd (addMiddleware a reg))
   \<and> prefix reg (snd (setMiddlewares ms reg))
   \<and> prefix reg (registry_after_all cs reg)"
  using registry_after_prefix[of reg "SetMiddlewares ms"]
  by (simp add: buildMiddlewares_registry buildRouter_registry getMiddlewares_def
        addMiddleware_prefix registry_after_all_prefix)

text \<open>
  After the registry of the test is set, building the router of the test leaves it,
  and two more calls keep it as the beginning of what they leave.
\<close>

theorem registry_only_grows_witness:
  "snd (snd (buildRouter test_router test_routes (snd (setMiddlewares middlewareObjects []))))
     = [\<lparr>name = ''pagination'', include = JArr [JStr ''get''], generator = 0\<rparr>,
        \<lparr>name = ''authorization'', include = JArr [JStr ''optional''], generator = 1\<rparr>]
   \<and> prefix
        [\<lparr>name = ''pagination'', include = JArr [JStr ''get''], generator = 0\<rparr>,
         \<lparr>name = ''authorization'', include = JArr [JStr ''optional''], generator = 1\<rparr>]
        (registry_after_all
           [BuildMiddlewares \<lparr>method = Some ''get'', path = Some ''/fish'', config = []\<rparr>,
            AddMiddleware handler_required]
           (snd (setMiddlewares middlewareObjects [])))"
  using registry_only_grows_at_the_tail
          [of "\<lparr>method = Some ''get'', path = Some ''/fish'', config = []\<rparr>"
              "snd (setMiddlewares middlewareObjects [])" test_router test_routes
              handler_required middlewareObjects
              "[BuildMiddlewares \<lparr>method = Some ''get'', path = Some ''/fish'', config = []\<rparr>,
                AddMiddleware handler_required]"]
  by (simp add: registry_of_test)

subsection \<open>The logging wrapper\<close>

text \<open>
  C9, as the code has it. The wrapped handler runs the handler once, on the same
  \<^verbatim>\<open>this\<close>, \<^verbatim>\<open>req\<close> and \<^verbatim>\<open>res\<close>, with \<^verbatim>\<open>newNext\<close> for continuation. \<^verbatim>\<open>newNext\<close> logs,
  passes its argument on to \<^verbatim>\<open>next\<close> unchanged, truthy or not, and gives back
  \<^verbatim>\<open>undefined\<close>. When \<^verbatim>\<open>next\<close> gives back \<^verbatim>\<open>undefined\<close> too and does not depend on what
  was logged, the wrapped handler gives back the value and leaves the application in
  the state that the handler alone does.
\<close>

theorem logged_handler_agrees_when_next_returns_undefined:
  assumes "ignores_log next" and "\<forall>err w. fst (next err w) = JUndefined"
  shows "fst (logMiddlware label h this req res next w) = fst (run_handler (h this req res) next w)
         \<and> app (snd (logMiddlware label h this req res next w))
             = app (snd (run_handler (h this req res) next w))
         \<and> newNext label next err w
             = (JUndefined,
                snd (next err (debugLog label (if truthy err then err else JStr ''complete'') w)))"
proof -
  have "app (debugLog label (JStr ''started'') w) = app w" by (rule app_debugLog)
  from wrapped_run_simulates[OF assms this, of "h this req res" label]
  show ?thesis
    by (simp add: logMiddlware_def newNext_def split: prod.splits)
qed

text \<open>
  A handler that counts its request and reports a failure, with a continuation that
  keeps the errors it is given.
\<close>

theorem logged_handler_witness:
  "ignores_log (\<lambda>err w. (JUndefined, w\<lparr>app := err # app w\<rparr>))
   \<and> logMiddlware ''pagination''
        (\<lambda>this req res. Update (\<lambda>s. req # s) (CallNext (JStr ''failed'') (\<lambda>v. Returns v)))
        JUndefined (JNum 1) (JNum 2) (\<lambda>err w. (JUndefined, w\<lparr>app := err # app w\<rparr>))
        \<lparr>app = [], debug_out = []\<rparr>
     = (JUndefined,
        \<lparr>app = [JStr ''failed'', JNum 1],
         debug_out = [(''middleware:pagination'', JStr ''started''),
                      (''middleware:pagination'', JStr ''failed'')]\<rparr>)
   \<and> run_handler (Update (\<lambda>s. JNum 1 # s) (CallNext (JStr ''failed'') (\<lambda>v. Returns v)))
        (\<lambda>err w. (JUndefined, w\<lparr>app := err # app w\<rparr>)) \<lparr>app = [], debug_out = []\<rparr>
     = (JUndefined, \<lparr>app = [JStr ''failed'', JNum 1], debug_out = []\<rparr>)"
proof -
  let ?next = "\<lambda>err (w :: jsval list world). (JUndefined, w\<lparr>app := err # app w\<rparr>)"
  have i: "ignores_log ?next" by (simp add: ignores_log_def)
  have u: "\<forall>err w. fst (?next err w) = JUndefined" by simp
  from logged_handler_agrees_when_next_returns_undefined[OF i u] i show ?thesis
    by (simp add: logMiddlware_def newNext_def debugLog_def)
qed

text \<open>
  The handler \<^verbatim>\<open>function (req, res, next) { return next(); }\<close> with a continuation
  that gives back \<^verbatim>\<open>1\<close>: alone it gives back \<^verbatim>\<open>1\<close>, wrapped it gives back
  \<^verbatim>\<open>undefined\<close>.
\<close>

theorem logged_handler_counterexample:
  "fst (logMiddlware ''pagination'' (\<lambda>this req res. CallNext JUndefined (\<lambda>v. Returns v))
          JUndefined (JObj []) (JObj []) (\<lambda>err w. (JNum 1, w)) \<lparr>app = (), debug_out = []\<rparr>)
     = JUndefined
   \<and> fst (run_handler (CallNext JUndefined (\<lambda>v. Returns v)) (\<lambda>err w. (JNum 1, w))
            \<lparr>app = (), debug_out = []\<rparr>)
     = JNum 1"
  by (simp add: logMiddlware_def newNext_def debugLog_def)

subsection \<open>Every token of a policy is matched against the method\<close>

text \<open>
  C10. In a registry as \<^verbatim>\<open>addMiddleware\<close> leaves it, an entry whose policy contains a
  token, be it \<^verbatim>\<open>"optional"\<close>, \<^verbatim>\<open>"required"\<close> or any other, is in the chain of every
  valid route whose method is that token, with or without a field of its name.
\<close>

theorem method_equal_to_any_token_includes:
  assumes "list_all registered reg" and "valid_route r" and "d \<in> set reg"
    and "include d = JArr toks" and "JStr tok \<in> set toks" and "method r = Some tok"
  shows "\<exists>c. fst (buildMiddlewares r reg) = Return c
             \<and> Logger (name d) (generator d) (route_get r (name d)) \<in> set c"
proof -
  from assms(2) obtain p where p: "path r = Some p" "p \<noteq> []" and m: "truthy (prop_of (method r))"
    by (cases "path r") (auto simp: valid_route_def prop_of_def)
  have "spec_included r d"
    using assms(4-6) by (simp add: spec_included_def policy_tokens_def)
  with assms(3) have "spec_handler r d \<in> set (map (spec_handler r) (filter (spec_included r) reg))"
    by simp
  then show ?thesis
    using buildMiddlewares_registered[OF assms(1) p m] by (simp add: spec_handler_def)
qed

text \<open>
  The entry \<^verbatim>\<open>authorization\<close> of the test, of policy \<^verbatim>\<open>"optional"\<close>, on a route of
  method \<^verbatim>\<open>"optional"\<close> that has no field \<^verbatim>\<open>authorization\<close>.
\<close>

theorem method_equal_to_any_token_includes_witness:
  "list_all registered (snd (setMiddlewares middlewareObjects []))
   \<and> valid_route \<lparr>method = Some ''optional'', path = Some ''/fish'', config = []\<rparr>
   \<and> \<not> hasOwnProperty \<lparr>method = Some ''optional'', path = Some ''/fish'', config = []\<rparr>
         ''authorization''
   \<and> (\<exists>c. fst (buildMiddlewares
                  \<lparr>method = Some ''optional'', path = Some ''/fish'', config = []\<rparr>
                  (snd (setMiddlewares middlewareObjects []))) = Return c
          \<and> Logger ''authorization'' 1 JUndefined \<in> set c)"
proof -
  let ?r = "\<lparr>method = Some ''optional'', path = Some ''/fish'', config = []\<rparr>"
  let ?d = "\<lparr>name = ''authorization'', include = JArr [JStr ''optional''], generator = 1\<rparr>"
  have reg: "list_all registered (snd (setMiddlewares middlewareObjects []))"
    by (simp add: registry_of_test registered_def)
  have r: "valid_route ?r" by (simp add: valid_route_def prop_of_def)
  have d: "?d \<in> set (snd (setMiddlewares middlewareObjects []))"
    by (simp add: registry_of_test)
  have "\<exists>c. fst (buildMiddlewares ?r (snd (setMiddlewares middlewareObjects []))) = Return c
             \<and> Logger (name ?d) (generator ?d) (route_get ?r (name ?d)) \<in> set c"
    by (rule method_equal_to_any_token_includes[OF reg r d, of "[JStr ''optional'']" "''optional''"])
       simp_all
  then show ?thesis using reg r
    by (simp add: route_get_def hasOwnProperty_def)
qed

end
